theory Spec2Isabelle
  imports Main "HOL-Library.Sublist"
begin

section \<open>Python values used by \<open>flask_app.py\<close>\<close>

text \<open>
  Strings are lists of characters. Python slicing with step 1 first adjusts both bounds
  against the length of the sequence: a negative bound counts from the end, and a bound
  that still lies outside \<open>0..len\<close> is moved to the nearer end. The slice is empty when
  the adjusted start is not below the adjusted stop.
\<close>

definition adjust_index :: "int \<Rightarrow> nat \<Rightarrow> nat" where
  "adjust_index i n =
     (if i < 0 then (if i + int n < 0 then 0 else nat (i + int n))
      else (if int n \<le> i then n else nat i))"

definition py_slice :: "'a list \<Rightarrow> int \<Rightarrow> int \<Rightarrow> 'a list" where
  "py_slice s start stop =
     (let n = length s; lo = adjust_index start n; hi = adjust_index stop n
      in if lo < hi then map (\<lambda>i. s ! i) [lo..<hi] else [])"

section \<open>SQL extraction\<close>

text \<open>
  \<^verbatim>\<open>generated_query = sql_llm(sql_prompt)[6:-3]\<close>: the statement is the completion
  without its first six and its last three characters.
\<close>

definition generated_query :: "string \<Rightarrow> string" where
  "generated_query completion = py_slice completion 6 (- 3)"

text \<open>
  The completion the source's comment expects: the body between an opening fence with the
  language tag \<open>sql\<close> and a closing fence.
\<close>

definition fenced :: "string \<Rightarrow> string" where
  "fenced body = ''```sql'' @ body @ ''```''"

section \<open>Textual representation of result values\<close>

text \<open>
  The values of a result row, as the database driver hands them to Python: \<open>None\<close>,
  booleans, integers, floats and strings. A finite float is given by what Python's
  shortest round-trip conversion yields for it: its sign, its significant decimal digits
  and the position of the decimal point relative to the first digit (\<open>500.0\<close> has the
  digit \<open>5\<close> and the point three places to the right).
\<close>

datatype pyfloat = Finite bool "nat list" int | Inf bool | NaN

datatype scalar = PyNone | PyBool bool | PyInt int | PyFloat pyfloat | PyStr string

definition digit_char :: "nat \<Rightarrow> char" where
  "digit_char d = char_of (48 + d)"

fun str_nat :: "nat \<Rightarrow> string" where
  "str_nat n = (if n < 10 then [digit_char n] else str_nat (n div 10) @ [digit_char (n mod 10)])"

definition str_int :: "int \<Rightarrow> string" where
  "str_int i = (if i < 0 then ''-'' @ str_nat (nat (- i)) else str_nat (nat i))"

text \<open>The exponent of a float in scientific notation: a sign and at least two digits.\<close>

definition exponent_str :: "int \<Rightarrow> string" where
  "exponent_str e =
     (if e < 0 then ''-'' else ''+'') @
     (if \<bar>e\<bar> < 10 then ''0'' else []) @ str_nat (nat \<bar>e\<bar>)"

text \<open>
  \<open>repr\<close> of a float: scientific notation when the decimal point lies more than sixteen
  places to the right of the first digit or more than three places to its left, fixed
  notation otherwise, where a value without fractional digits gets \<open>.0\<close>.
\<close>

definition float_repr :: "pyfloat \<Rightarrow> string" where
  "float_repr x =
     (case x of
        NaN \<Rightarrow> ''nan''
      | Inf neg \<Rightarrow> (if neg then ''-inf'' else ''inf'')
      | Finite neg ds decpt \<Rightarrow>
          (let s = map digit_char ds; n = int (length ds)
           in (if neg then ''-'' else []) @
              (if decpt \<le> - 4 \<or> 16 < decpt then
                 take 1 s @ (if 1 < n then ''.'' @ drop 1 s else []) @
                 ''e'' @ exponent_str (decpt - 1)
               else if decpt \<le> 0 then ''0.'' @ replicate (nat (- decpt)) (CHR ''0'') @ s
               else if decpt < n then take (nat decpt) s @ ''.'' @ drop (nat decpt) s
               else s @ replicate (nat (decpt - n)) (CHR ''0'') @ ''.0'')))"

text \<open>Python's \<open>str\<close> on a result value.\<close>

fun py_str :: "scalar \<Rightarrow> string" where
  "py_str PyNone = ''None''"
| "py_str (PyBool b) = (if b then ''True'' else ''False'')"
| "py_str (PyInt i) = str_int i"
| "py_str (PyFloat x) = float_repr x"
| "py_str (PyStr s) = s"

text \<open>\<open>sep.join(parts)\<close>.\<close>

fun join :: "string \<Rightarrow> string list \<Rightarrow> string" where
  "join sep [] = []"
| "join sep [x] = x"
| "join sep (x # y # ys) = x @ sep @ join sep (y # ys)"

section \<open>The result formatter\<close>

text \<open>
  \<^verbatim>\<open>def format_response(response):\<close>
  \<^verbatim>\<open>    text = ""\<close>
  \<^verbatim>\<open>    for row in response:\<close>
  \<^verbatim>\<open>        text += " | ".join([str(item) for item in row]) + "\n\n"\<close>
  \<^verbatim>\<open>    return text\<close>
\<close>

definition format_response :: "scalar list list \<Rightarrow> string" where
  "format_response response =
     foldl (\<lambda>text row. text @ join '' | '' (map py_str row) @ ''\<newline>\<newline>'') [] response"

text \<open>
  The number of rows a reader finds in a formatted text: the number of row terminators
  (blank lines, two newline characters), counted from the left without overlap, as
  \<^verbatim>\<open>text.count("\n\n")\<close> does.
\<close>

fun row_count :: "string \<Rightarrow> nat" where
  "row_count (a # b # s) =
     (if a = CHR ''\<newline>'' \<and> b = CHR ''\<newline>'' then Suc (row_count s) else row_count (b # s))"
| "row_count [a] = 0"
| "row_count [] = 0"

section \<open>Errors\<close>

text \<open>
  The exceptions the modelled code can meet: those of \<open>str.format\<close>; the failure of
  a call to the completion service or to the database, which carries its message; and an
  exception outside the class \<open>Exception\<close> (\<open>KeyboardInterrupt\<close>, \<open>SystemExit\<close>) that
  reaches the handler while a call is pending, which carries its name. A replacement field
  with an attribute, an index, a conversion or a format specification is not used by the
  source and is answered with \<open>NotModelled\<close>.
\<close>

datatype error =
  ValueError | KeyError string | IndexError | NotModelled | ServiceError string | Interrupt string

text \<open>Whether an exception belongs to the class \<open>Exception\<close>.\<close>

fun is_exception :: "error \<Rightarrow> bool" where
  "is_exception (Interrupt name) = False"
| "is_exception e = True"

section \<open>\<open>repr\<close> of strings and \<open>str\<close> of a list of strings\<close>

text \<open>
  Characters stand for the code points below 256. Of these Python prints the ASCII
  characters from the space to the tilde and the Latin-1 characters from \<open>0xA1\<close> on,
  the soft hyphen \<open>0xAD\<close> excepted, as they are; the others are escaped.
\<close>

definition printable :: "char \<Rightarrow> bool" where
  "printable c = (let n = (of_char c :: nat) in (32 \<le> n \<and> n < 127) \<or> (161 \<le> n \<and> n \<noteq> 173))"

definition hex_digit :: "nat \<Rightarrow> char" where
  "hex_digit d = (if d < 10 then char_of (48 + d) else char_of (87 + d))"

definition repr_char :: "char \<Rightarrow> char \<Rightarrow> string" where
  "repr_char quote c =
     (if c = quote \<or> c = CHR 0x5C then [CHR 0x5C, c]
      else if c = CHR 0x09 then [CHR 0x5C, CHR ''t'']
      else if c = CHR 0x0A then [CHR 0x5C, CHR ''n'']
      else if c = CHR 0x0D then [CHR 0x5C, CHR ''r'']
      else if \<not> printable c then
        [CHR 0x5C, CHR ''x'', hex_digit (of_char c div 16), hex_digit (of_char c mod 16)]
      else [c])"

text \<open>
  \<open>repr\<close> of a string: in double quotes when the string holds a single quote and no
  double quote, in single quotes otherwise.
\<close>

definition py_repr :: "string \<Rightarrow> string" where
  "py_repr s =
     (let quote = (if CHR 0x27 \<in> set s \<and> CHR 0x22 \<notin> set s then CHR 0x22 else CHR 0x27)
      in quote # concat (map (repr_char quote) s) @ [quote])"

text \<open>\<open>str\<close> of a list of strings, which is what the field \<open>{tables}\<close> is replaced by.\<close>

definition str_list :: "string list \<Rightarrow> string" where
  "str_list xs = ''['' @ join '', '' (map py_repr xs) @ '']''"

section \<open>\<open>str.format\<close> with keyword arguments\<close>

text \<open>
  The value of a replacement field: a field without a name or with a number refers to a
  positional argument, of which the source passes none; a name is looked up among the
  keyword arguments.
\<close>

definition lookup_field :: "(string \<times> string) list \<Rightarrow> string \<Rightarrow> error + string" where
  "lookup_field kwargs name =
     (if \<exists>c \<in> set name. c \<in> set ''.[!:{'' then Inl NotModelled
      else if \<forall>c \<in> set name. c \<in> set ''0123456789'' then Inl IndexError
      else (case map_of kwargs name of None \<Rightarrow> Inl (KeyError name) | Some v \<Rightarrow> Inr v))"

definition emit :: "string \<Rightarrow> error + string \<Rightarrow> error + string" where
  "emit s r = (case r of Inl e \<Rightarrow> Inl e | Inr out \<Rightarrow> Inr (s @ out))"

text \<open>
  The format string is read from the left. Outside a field (\<open>None\<close>) a doubled brace is
  a literal brace, an opening brace starts a field and a single closing brace is an
  error; inside a field (\<open>Some name\<close>) the name is collected up to the closing brace, and
  the end of the string is an error.
\<close>

fun format_from :: "(string \<times> string) list \<Rightarrow> string option \<Rightarrow> string \<Rightarrow> error + string" where
  "format_from kwargs None [] = Inr []"
| "format_from kwargs (Some name) [] = Inl ValueError"
| "format_from kwargs None (c # cs) =
     (if c = CHR ''{'' then
        (case cs of
           [] \<Rightarrow> Inl ValueError
         | d # ds \<Rightarrow> if d = CHR ''{'' then emit ''{'' (format_from kwargs None ds)
                    else format_from kwargs (Some []) cs)
      else if c = CHR ''}'' then
        (case cs of
           [] \<Rightarrow> Inl ValueError
         | d # ds \<Rightarrow> if d = CHR ''}'' then emit ''}'' (format_from kwargs None ds)
                    else Inl ValueError)
      else emit [c] (format_from kwargs None cs))"
| "format_from kwargs (Some name) (c # cs) =
     (if c = CHR ''}'' then
        (case lookup_field kwargs name of
           Inl e \<Rightarrow> Inl e
         | Inr v \<Rightarrow> emit v (format_from kwargs None cs))
      else format_from kwargs (Some (name @ [c])) cs)"

definition py_format :: "string \<Rightarrow> (string \<times> string) list \<Rightarrow> error + string" where
  "py_format fmt kwargs = format_from kwargs None fmt"

section \<open>The prompt templates\<close>

text \<open>
  The module-level \<open>template\<close> of the SQL generator, lines 47 to 170 of the source,
  one string literal per line, each ending with the line's newline. It begins with the
  newline that follows the opening quotes. The line with the two replacement fields is
  cut at the fields, so that the template is its text before \<open>{query}\<close>, the field,
  the text between the fields, the field \<open>{tables}\<close> and the text after it.
\<close>

definition template_head :: string where
  \<open>template_head =
     ''\<newline>'' @
     ''You are a PostgreSQL expert. Your task is to generate only SQL queries to be run in a Python environment using the `psycopg2` library.\<newline>'' @
     ''Use double quotes around table names always\<newline>'' @
     ''The SQL query should be based on this user query: ''\<close>

definition template_middle :: string where
  \<open>template_middle =
     ''. The database has the following tables: ''\<close>

definition template_tail_lines :: "string list" where
  \<open>template_tail_lines =
    [''.\<newline>'',
     ''Use only the table names and columns exactly as provided. Do not include or reference any tables or columns that are not listed.\<newline>'',
     ''Make sure to reference the table names columns with the right names and spelling case too.\<newline>'',
     ''Ensure the query is formatted correctly as a string for Python, following this pattern:\<newline>'',
     ''SELECT column1, column2 FROM table_name WHERE condition = 'value';\<newline>'',
     ''\<newline>'',
     ''Remember:\<newline>'',
     ''- Always match the exact spelling and case of the tables and columns.\<newline>'',
     ''- Be prepared to generate complex queries if the user's request involves comparing products, locations, or metrics.\<newline>'',
     ''- If the user asks to compare products across different metrics, use the relevant "resource" tables provided in the list.\<newline>'',
     ''- For example, if asked to compare products across states, use the "StateResource" table to rank them by the relevant metric.\<newline>'',
     ''\<newline>'',
     ''The schema of the database is as follows:\<newline>'',
     ''```\<newline>'',
     ''table Lga\<newline>'',
     ''  id                Int                 @id @default(autoincrement())\<newline>'',
     ''  name              String\<newline>'',
     ''  stateId           Int\<newline>'',
     ''  state             State               @relation(fields: [stateId], references: [id])\<newline>'',
     ''  lgaResources      LgaResource[]\<newline>'',
     ''\<newline>'',
     ''table State\<newline>'',
     ''  id                Int                 @id @default(autoincrement())\<newline>'',
     ''  name              String              @unique\<newline>'',
     ''  country           String?\<newline>'',
     ''  lgas              Lga[]\<newline>'',
     ''  stateResources    StateResource[]\<newline>'',
     ''\<newline>'',
     ''table Category\<newline>'',
     ''  id                Int        @id @default(autoincrement())\<newline>'',
     ''  name              String\<newline>'',
     ''  abbr              String?\<newline>'',
     ''  unitOfMeasurement String?\<newline>'',
     ''  subCategories SubCategory[]\<newline>'',
     ''  resources         ResourceCategory[]\<newline>'',
     ''\<newline>'',
     ''table ResourceCategory\<newline>'',
     ''  resourceId Int\<newline>'',
     ''  categoryId Int\<newline>'',
     ''  resource   Resource @relation(fields: [resourceId], references: [id])\<newline>'',
     ''  category   Category @relation(fields: [categoryId], references: [id])\<newline>'',
     ''\<newline>'',
     ''  @@id([resourceId, categoryId])  // Composite primary key\<newline>'',
     ''\<newline>'',
     ''table SubCategory\<newline>'',
     ''  id  Int @id @default(autoincrement())\<newline>'',
     ''  name String\<newline>'',
     ''  abbr String?\<newline>'',
     ''  categoryId Int\<newline>'',
     ''  category Category @relation(fields: [categoryId], references: [id])\<newline>'',
     ''\<newline>'',
     ''table Resource\<newline>'',
     ''  id                Int                 @id @default(autoincrement())\<newline>'',
     ''  name              String @unique\<newline>'',
     ''  stateResources    StateResource[]\<newline>'',
     ''  lgaResources      LgaResource[]\<newline>'',
     ''  createdAt         DateTime            @default(now())\<newline>'',
     ''  lastModifiedOn    DateTime            @updatedAt\<newline>'',
     ''  categories        ResourceCategory[]\<newline>'',
     ''\<newline>'',
     ''  @@index([name])\<newline>'',
     ''\<newline>'',
     ''table StateResource\<newline>'',
     ''  id         Int      @id @default(autoincrement())\<newline>'',
     ''  resourceId Int\<newline>'',
     ''  resource   Resource @relation(fields: [resourceId], references: [id])\<newline>'',
     ''  stateId    Int\<newline>'',
     ''  totalQuantity Float?\<newline>'',
     ''  totalValue Float?\<newline>'',
     ''  state      State    @relation(fields: [stateId], references: [id])\<newline>'',
     ''\<newline>'',
     ''  @@index([resourceId, stateId])\<newline>'',
     ''  @@unique([stateId, resourceId])\<newline>'',
     ''\<newline>'',
     ''table LgaResource\<newline>'',
     ''  id         Int      @id @default(autoincrement())\<newline>'',
     ''  identifier  String  @unique\<newline>'',
     ''  resourceId Int\<newline>'',
     ''  resource   Resource @relation(fields: [resourceId], references: [id])\<newline>'',
     ''  lgaId      Int\<newline>'',
     ''  lga        Lga      @relation(fields: [lgaId], references: [id])\<newline>'',
     ''  quantity   String?\<newline>'',
     ''  quality    Float?\<newline>'',
     ''  value      Float?\<newline>'',
     ''  collectionDate    String?\<newline>'',
     ''  collectorName String?\<newline>'',
     ''  collectorPhone String?\<newline>'',
     ''  SampleId String?\<newline>'',
     ''  locationName String?\<newline>'',
     ''  locationLat Float?\<newline>'',
     ''  locationLong Float?\<newline>'',
     ''  locationAltitude Float?\<newline>'',
     ''  locationPrecision Float?\<newline>'',
     ''  harvestDate String?\<newline>'',
     ''  quantityRating Float?\<newline>'',
     ''  resourceQuantity Float?\<newline>'',
     ''  labAnalysis String?\<newline>'',
     ''  moistureContent String?\<newline>'',
     ''  pestDiseaseIncidence String?\<newline>'',
     ''  storageConditions String?\<newline>'',
     ''  marketPrice String?\<newline>'',
     ''  environmentalSustainabilty String?\<newline>'',
     ''  agricCategorization Float?\<newline>'',
     ''  solidMineralCategorization Float?\<newline>'',
     ''  accessToMarket Float?\<newline>'',
     ''  marketValue Float?\<newline>'',
     ''  environmentalImpact Float?\<newline>'',
     ''  valueChainAnalysis Float?\<newline>'',
     ''  investmentOpportunities Float?\<newline>'',
     ''  policiesRegulations Float?\<newline>'',
     ''  industryChallenges Float?\<newline>'',
     ''  locationLgaWard String?\<newline>'',
     ''  townVillage String?\<newline>'',
     ''  stakeholderEngagement Float?\<newline>'',
     ''  submissionDate DateTime?\<newline>'',
     ''  status String?\<newline>'',
     ''  collectionStart DateTime?\<newline>'',
     ''  collectionEnd DateTime?\<newline>'',
     ''\<newline>'',
     ''  @@index([resourceId, lgaId])```\<newline>'']\<close>

definition template_tail :: string where
  "template_tail = concat template_tail_lines"

definition template :: string where
  "template = template_head @ ''{query}'' @ template_middle @ ''{tables}'' @ template_tail"

text \<open>
  The \<open>compare_template\<close> of \<open>get_response\<close>, lines 179 to 191 of the source, cut
  at its three replacement fields in the same way. Its last line is the indentation before
  the closing quotes.
\<close>

definition compare_head :: string where
  \<open>compare_head =
     ''\<newline>'' @
     ''    Given a user query, sql code and corresponding result, Actual explanation to users.\<newline>'' @
     ''    Consider that the users are laymen with no coding knowledge, so don't explain the sql, just relate the result, context from code and the query.\<newline>'' @
     ''    query: ''\<close>

definition compare_middle1 :: string where
  \<open>compare_middle1 =
     ''\<newline>'' @
     ''    sql_code: ''\<close>

definition compare_middle2 :: string where
  \<open>compare_middle2 =
     ''\<newline>'' @
     ''    sql_result: ''\<close>

definition compare_tail :: string where
  \<open>compare_tail =
     ''\<newline>'' @
     ''    If the answer to the question is not in the sql result, say that you could not process it, that the user should word the better, respond professionally.\<newline>'' @
     ''    Do not mention any technical term in your respoonse, like code, sql, result, etc. use data instead, and don't use personal pronouns like we, our, ...\<newline>'' @
     ''    And be aware of what the values represent. So, when asked to compare any two variables or talk about a variable, by rating and you see numerical values like (2, 3.0, 5.0, and so on), use the schema below:\<newline>'' @
     ''    0 - 3 being Low\<newline>'' @
     ''    4 - 6 being Average\<newline>'' @
     ''    7 - 10 being High\<newline>'' @
     ''    ''\<close>

definition compare_template :: string where
  "compare_template =
     compare_head @ ''{query}'' @ compare_middle1 @ ''{sql_code}'' @ compare_middle2 @
     ''{sql_result}'' @ compare_tail"

section \<open>The prompt compiler\<close>

text \<open>
  \<^verbatim>\<open>sql_prompt = template.format(query=query, tables=tables)\<close>, where \<open>tables\<close> is
  the list of table names read at start-up.
\<close>

definition sql_prompt :: "string \<Rightarrow> string list \<Rightarrow> error + string" where
  "sql_prompt query tables =
     py_format template [(''query'', query), (''tables'', str_list tables)]"

text \<open>
  The number of places at which a text occurs in another, and whether it occurs at all.
\<close>

fun occurrences :: "string \<Rightarrow> string \<Rightarrow> nat" where
  "occurrences needle [] = (if needle = [] then 1 else 0)"
| "occurrences needle (c # cs) =
     (if prefix needle (c # cs) then 1 else 0) + occurrences needle cs"

text \<open>A character of a format string that is neither brace.\<close>

definition no_brace :: "char \<Rightarrow> bool" where
  "no_brace c = (c \<noteq> CHR ''{'' \<and> c \<noteq> CHR ''}'')"

text \<open>
  A table name that \<open>repr\<close> renders unchanged between its quotes: printable characters
  only, no backslash, and not both kinds of quote.
\<close>

definition plain_name :: "string \<Rightarrow> bool" where
  "plain_name s =
     ((\<forall>c \<in> set s. printable c \<and> c \<noteq> CHR 0x5C) \<and> \<not> (CHR 0x27 \<in> set s \<and> CHR 0x22 \<in> set s))"

section \<open>The completion service and the database\<close>

text \<open>
  The handler talks to two completion clients and to one database connection shared by
  the whole process. What these answer is not decided by the program, so the model takes
  it as a parameter: a state \<open>'w\<close> of the outside world (database contents, state of the
  connection and its transaction, state of the completion service) and, for every call
  the handler makes, a function from the world before the call to the call's result (an
  exception or a value) and the world after it.
\<close>

record 'w services =
  sql_llm :: "string \<Rightarrow> 'w \<Rightarrow> (error + string) \<times> 'w"
  compare_llm :: "string \<Rightarrow> 'w \<Rightarrow> (error + string) \<times> 'w"
  cursor :: "'w \<Rightarrow> (error + unit) \<times> 'w"
  execute :: "string \<Rightarrow> 'w \<Rightarrow> (error + unit) \<times> 'w"
  fetchall :: "'w \<Rightarrow> (error + scalar list list) \<times> 'w"
  commit :: "'w \<Rightarrow> (error + unit) \<times> 'w"
  rollback :: "'w \<Rightarrow> (error + unit) \<times> 'w"

text \<open>
  The calls are recorded, in order, with their arguments and with whether they returned
  (\<open>True\<close>) or raised (\<open>False\<close>). The state the handler threads through its calls is
  the world and the record of calls so far.
\<close>

datatype call =
  SqlLlm string | Cursor | Execute string | Fetchall | Commit | Rollback | CompareLlm string

type_synonym event = "call \<times> bool"

type_synonym 'w state = "'w \<times> event list"

definition invoke :: "call \<Rightarrow> ('w \<Rightarrow> (error + 'a) \<times> 'w) \<Rightarrow> 'w state \<Rightarrow> (error + 'a) \<times> 'w state" where
  "invoke c f s = (case f (fst s) of (r, w) \<Rightarrow> (r, (w, snd s @ [(c, \<not> isl r)])))"

section \<open>The execution loop of \<open>get_response\<close>\<close>

text \<open>
  The body of the \<open>try\<close> statement, lines 200 to 206: the first call that raises ends
  it with the exception, and \<open>str.format\<close> on \<open>compare_template\<close> is inside it too.
  \<^verbatim>\<open>cursor.execute(generated_query)\<close>
  \<^verbatim>\<open>response = cursor.fetchall()\<close>
  \<^verbatim>\<open>response = format_response(response)\<close>
  \<^verbatim>\<open>connection.commit()\<close>
  \<^verbatim>\<open>compare_prompt = compare_template.format(query=query, sql_code=generated_query, sql_result=response)\<close>
  \<^verbatim>\<open>explanation = compare_llm(compare_prompt)\<close>
\<close>

definition try_block ::
  "'w services \<Rightarrow> string \<Rightarrow> string \<Rightarrow> 'w state \<Rightarrow> (error + string) \<times> 'w state" where
  "try_block sv query generated s =
     (case invoke (Execute generated) (execute sv generated) s of
        (Inl e, s1) \<Rightarrow> (Inl e, s1)
      | (Inr _, s1) \<Rightarrow>
          (case invoke Fetchall (fetchall sv) s1 of
             (Inl e, s2) \<Rightarrow> (Inl e, s2)
           | (Inr rows, s2) \<Rightarrow>
               (let response = format_response rows
                in case invoke Commit (commit sv) s2 of
                     (Inl e, s3) \<Rightarrow> (Inl e, s3)
                   | (Inr _, s3) \<Rightarrow>
                       (case py_format compare_template
                               [(''query'', query), (''sql_code'', generated),
                                (''sql_result'', response)] of
                          Inl e \<Rightarrow> (Inl e, s3)
                        | Inr compare_prompt \<Rightarrow>
                            invoke (CompareLlm compare_prompt)
                              (compare_llm sv compare_prompt) s3))))"

text \<open>
  One iteration of \<^verbatim>\<open>while not done\<close>: the \<open>try\<close> body, and on any exception the
  handler \<^verbatim>\<open>connection.rollback()\<close>. The clause is \<^verbatim>\<open>except Exception as e\<close>,
  line 208: it catches the exceptions of the class \<open>Exception\<close> and lets any other
  through. The iteration ends with the explanation and \<open>done = True\<close>, or with
  \<open>done\<close> still \<open>False\<close> after a rollback, or with an exception that nothing
  catches: the one the rollback itself raised, or one of the \<open>try\<close> body that is not
  an \<open>Exception\<close>, after which no rollback is made.
\<close>

datatype outcome = Done string | Retry | Raised error

definition attempt ::
  "'w services \<Rightarrow> string \<Rightarrow> string \<Rightarrow> 'w state \<Rightarrow> outcome \<times> 'w state" where
  "attempt sv query generated s =
     (case try_block sv query generated s of
        (Inr explanation, s1) \<Rightarrow> (Done explanation, s1)
      | (Inl e, s1) \<Rightarrow>
          (if is_exception e then
             (case invoke Rollback (rollback sv) s1 of
                (Inl e', s2) \<Rightarrow> (Raised e', s2)
              | (Inr _, s2) \<Rightarrow> (Retry, s2))
           else (Raised e, s1)))"

text \<open>
  The loop, lines 197 to 209. It may run forever: \<open>None\<close> is the run that never leaves
  the loop, \<open>Some\<close> a run that leaves it, with the explanation or with the exception
  that nothing caught.
\<close>

partial_function (option) execution_loop ::
  "'w services \<Rightarrow> string \<Rightarrow> string \<Rightarrow> 'w state \<Rightarrow> ((error + string) \<times> 'w state) option" where
  "execution_loop sv query generated s =
     (case attempt sv query generated s of
        (Done explanation, s1) \<Rightarrow> Some (Inr explanation, s1)
      | (Retry, s1) \<Rightarrow> execution_loop sv query generated s1
      | (Raised e, s1) \<Rightarrow> Some (Inl e, s1))"

text \<open>
  The loop cut after at most \<open>n\<close> iterations: the outcome \<open>Retry\<close> says that the loop
  is still running after them. It gives the calls made so far also for a run that never
  ends.
\<close>

fun iterate_loop ::
  "'w services \<Rightarrow> string \<Rightarrow> string \<Rightarrow> nat \<Rightarrow> 'w state \<Rightarrow> outcome \<times> 'w state" where
  "iterate_loop sv query generated 0 s = (Retry, s)"
| "iterate_loop sv query generated (Suc n) s =
     (case attempt sv query generated s of
        (Retry, s1) \<Rightarrow> iterate_loop sv query generated n s1
      | (Done explanation, s1) \<Rightarrow> (Done explanation, s1)
      | (Raised e, s1) \<Rightarrow> (Raised e, s1))"

section \<open>The request handler\<close>

text \<open>
  \<open>get_response\<close>, lines 173 to 210, for the list \<open>tables\<close> read at start-up. The
  prompt is compiled and the completion requested and cut before the loop, outside any
  \<open>try\<close>: an exception there leaves the handler. Constructing the two completion
  clients makes no call and is not modelled. The returned dictionary has the one key
  \<open>ai_response\<close>; the model returns its value.
\<close>

definition get_response ::
  "'w services \<Rightarrow> string list \<Rightarrow> string \<Rightarrow> 'w state \<Rightarrow> ((error + string) \<times> 'w state) option" where
  "get_response sv tables query s =
     (case sql_prompt query tables of
        Inl e \<Rightarrow> Some (Inl e, s)
      | Inr prompt \<Rightarrow>
          (case invoke (SqlLlm prompt) (sql_llm sv prompt) s of
             (Inl e, s1) \<Rightarrow> Some (Inl e, s1)
           | (Inr completion, s1) \<Rightarrow>
               (case invoke Cursor (cursor sv) s1 of
                  (Inl e, s2) \<Rightarrow> Some (Inl e, s2)
                | (Inr _, s2) \<Rightarrow> execution_loop sv query (generated_query completion) s2)))"

section \<open>Recovery discipline of a record of calls\<close>

text \<open>
  A record of calls keeps the recovery discipline when every call that raised and is not
  the last call of the record, other than a rollback, is directly followed by a rollback,
  and every execution of a statement that is not the first call of the record directly
  follows a rollback that returned. The last call of a record may have raised: the handler
  lets an exception outside \<open>Exception\<close> through, and no call follows it.
\<close>

fun is_execute :: "call \<Rightarrow> bool" where
  "is_execute (Execute q) = True"
| "is_execute c = False"

fun recovery_ok :: "event list \<Rightarrow> bool" where
  "recovery_ok [] = True"
| "recovery_ok [(c, ok)] = True"
| "recovery_ok ((c, ok) # (c', ok') # es) =
     ((ok \<or> c = Rollback \<or> c' = Rollback) \<and>
      (is_execute c' \<longrightarrow> c = Rollback \<and> ok) \<and>
      recovery_ok ((c', ok') # es))"

text \<open>
  How the record of a run ends that leaves the loop with the exception \<open>e\<close>: with a
  rollback that raised, or, when \<open>e\<close> is not an \<open>Exception\<close>, with the call of the
  \<open>try\<close> body that raised it.
\<close>

definition uncaught_end :: "error \<Rightarrow> event \<Rightarrow> bool" where
  "uncaught_end e ev =
     (ev = (Rollback, False) \<or> (\<not> is_exception e \<and> snd ev = False \<and> fst ev \<noteq> Rollback))"

section \<open>Some behaviours of the outside\<close>

text \<open>
  A connection that is closed: every statement raises, and so does the rollback. The world
  has a single state.
\<close>

definition closed_connection :: "unit services" where
  "closed_connection =
     \<lparr>sql_llm = (\<lambda>p w. (Inr (fenced ''SELECT 1;''), w)),
      compare_llm = (\<lambda>p w. (Inr ''one'', w)),
      cursor = (\<lambda>w. (Inr (), w)),
      execute = (\<lambda>q w. (Inl (ServiceError ''server closed the connection unexpectedly''), w)),
      fetchall = (\<lambda>w. (Inl (ServiceError ''connection already closed''), w)),
      commit = (\<lambda>w. (Inl (ServiceError ''connection already closed''), w)),
      rollback = (\<lambda>w. (Inl (ServiceError ''connection already closed''), w))\<rparr>"

text \<open>
  A database that raises on every statement and rolls back without fault.
\<close>

definition failing_statement :: "unit services" where
  "failing_statement =
     \<lparr>sql_llm = (\<lambda>p w. (Inr (fenced ''SELECT nothing;''), w)),
      compare_llm = (\<lambda>p w. (Inr ''one'', w)),
      cursor = (\<lambda>w. (Inr (), w)),
      execute = (\<lambda>q w. (Inl (ServiceError ''column nothing does not exist''), w)),
      fetchall = (\<lambda>w. (Inr [], w)),
      commit = (\<lambda>w. (Inr (), w)),
      rollback = (\<lambda>w. (Inr (), w))\<rparr>"

text \<open>
  A database on which every call returns, and a process that is interrupted while the
  explanation request is pending.
\<close>

definition interrupted_explanation :: "unit services" where
  "interrupted_explanation =
     \<lparr>sql_llm = (\<lambda>p w. (Inr (fenced ''SELECT 1;''), w)),
      compare_llm = (\<lambda>p w. (Inl (Interrupt ''KeyboardInterrupt''), w)),
      cursor = (\<lambda>w. (Inr (), w)),
      execute = (\<lambda>q w. (Inr (), w)),
      fetchall = (\<lambda>w. (Inr [], w)),
      commit = (\<lambda>w. (Inr (), w)),
      rollback = (\<lambda>w. (Inr (), w))\<rparr>"

text \<open>
  A database on which every call succeeds and returns the given rows, and a completion
  service that answers the SQL prompt with the given completion and raises on its first
  \<open>n\<close> explanation requests before it returns the given explanation. The world counts
  the explanation requests made.
\<close>

definition flaky_explanation ::
  "nat \<Rightarrow> string \<Rightarrow> scalar list list \<Rightarrow> string \<Rightarrow> nat services" where
  "flaky_explanation n completion rows explanation =
     \<lparr>sql_llm = (\<lambda>p w. (Inr completion, w)),
      compare_llm = (\<lambda>p w. (if w < n then Inl (ServiceError ''completion service unavailable'')
                             else Inr explanation, Suc w)),
      cursor = (\<lambda>w. (Inr (), w)),
      execute = (\<lambda>q w. (Inr (), w)),
      fetchall = (\<lambda>w. (Inr rows, w)),
      commit = (\<lambda>w. (Inr (), w)),
      rollback = (\<lambda>w. (Inr (), w))\<rparr>"

section \<open>Rounds of calls\<close>

text \<open>
  The calls of one iteration in which the statement is executed, fetched and committed and
  the explanation request then raises, so that the handler rolls back; the calls of an
  iteration in which the explanation request returns; and the name of a call without its
  argument.
\<close>

definition failed_round :: "string \<Rightarrow> string \<Rightarrow> event list" where
  "failed_round generated prompt =
     [(Execute generated, True), (Fetchall, True), (Commit, True), (CompareLlm prompt, False),
      (Rollback, True)]"

definition successful_round :: "string \<Rightarrow> string \<Rightarrow> event list" where
  "successful_round generated prompt =
     [(Execute generated, True), (Fetchall, True), (Commit, True), (CompareLlm prompt, True)]"

fun call_name :: "call \<Rightarrow> string" where
  "call_name (SqlLlm p) = ''sql_llm''"
| "call_name Cursor = ''cursor''"
| "call_name (Execute q) = ''execute''"
| "call_name Fetchall = ''fetchall''"
| "call_name Commit = ''commit''"
| "call_name Rollback = ''rollback''"
| "call_name (CompareLlm p) = ''compare_llm''"

section \<open>Properties of the extraction\<close>

lemma adjust_index_le: "adjust_index i n \<le> n"
  unfolding adjust_index_def by auto

lemma py_slice_take_drop:
  "py_slice s start stop =
     take (adjust_index stop (length s) - adjust_index start (length s))
       (drop (adjust_index start (length s)) s)"
proof -
  let ?lo = "adjust_index start (length s)" and ?hi = "adjust_index stop (length s)"
  have hi: "?hi \<le> length s" by (rule adjust_index_le)
  show ?thesis
  proof (cases "?lo < ?hi")
    case True
    have "map (\<lambda>i. s ! i) [?lo..<?hi] = take (?hi - ?lo) (drop ?lo s)"
    proof (rule nth_equalityI)
      show "length (map (\<lambda>i. s ! i) [?lo..<?hi]) = length (take (?hi - ?lo) (drop ?lo s))"
        using hi by simp
    next
      fix i assume "i < length (map (\<lambda>i. s ! i) [?lo..<?hi])"
      then show "map (\<lambda>i. s ! i) [?lo..<?hi] ! i = take (?hi - ?lo) (drop ?lo s) ! i"
        using hi by simp
    qed
    with True show ?thesis by (simp add: py_slice_def Let_def)
  next
    case False
    then show ?thesis by (simp add: py_slice_def Let_def)
  qed
qed

lemma adjust_start: "adjust_index 6 n = min 6 n"
  by (simp add: adjust_index_def)

lemma adjust_stop: "adjust_index (- 3) n = n - 3"
  unfolding adjust_index_def by auto

lemma generated_query_take_drop: "generated_query raw = take (length raw - 9) (drop 6 raw)"
proof (cases "6 \<le> length raw")
  case True
  then have "length raw - 3 - min 6 (length raw) = length raw - 9" by simp
  then show ?thesis
    using True by (simp add: generated_query_def py_slice_take_drop adjust_start adjust_stop)
next
  case False
  then show ?thesis
    by (simp add: generated_query_def py_slice_take_drop adjust_start adjust_stop)
qed

lemma length_generated_query: "length (generated_query raw) = length raw - 9"
  by (simp add: generated_query_take_drop)

lemma generated_query_fenced: "generated_query (fenced body) = body"
  by (simp add: generated_query_take_drop fenced_def)

lemma drop_last3: "rev (drop 3 (rev xs)) = take (length xs - 3) xs"
  by (simp add: rev_drop)

lemma generated_query_rev: "generated_query raw = rev (drop 3 (rev (drop 6 raw)))"
proof -
  have "length raw - 6 - 3 = length raw - 9" by simp
  then show ?thesis by (simp add: generated_query_take_drop drop_last3)
qed

lemma generated_query_map: "generated_query (map f raw) = map f (generated_query raw)"
  by (simp add: generated_query_take_drop take_map drop_map)

lemma generated_query_split:
  assumes 9: "9 \<le> length raw"
  shows "raw = take 6 raw @ generated_query raw @ drop (length raw - 3) raw"
proof -
  have e: "length raw - 9 + 6 = length raw - 3" using 9 by simp
  have "drop (length raw - 9) (drop 6 raw) = drop (length raw - 9 + 6) raw"
    by (simp only: drop_drop)
  then have d: "drop (length raw - 3) raw = drop (length raw - 9) (drop 6 raw)"
    by (simp only: e)
  have "take (length raw - 9) (drop 6 raw) @ drop (length raw - 9) (drop 6 raw) = drop 6 raw"
    by (rule append_take_drop_id)
  then have "take 6 raw @ take (length raw - 9) (drop 6 raw) @ drop (length raw - 3) raw
             = take 6 raw @ drop 6 raw"
    by (simp only: d)
  then show ?thesis by (simp add: generated_query_take_drop)
qed

subsection \<open>Claims about the extraction\<close>

text \<open>
  C4. For every completion the statement is obtained by removing the first six and the
  last three characters, whatever the completion holds: the result is the completion
  without six leading and three trailing characters; a completion of at least nine
  characters is a six-character prefix, the statement and a three-character suffix; and
  the extraction does not look at the characters (it commutes with any renaming of them),
  so nothing is validated and a result is always produced.
\<close>

theorem extraction_fixed_offsets:
  "generated_query raw = rev (drop 3 (rev (drop 6 raw))) \<and>
   (9 \<le> length raw \<longrightarrow>
      raw = take 6 raw @ generated_query raw @ drop (length raw - 3) raw \<and>
      length (take 6 raw) = 6 \<and> length (drop (length raw - 3) raw) = 3) \<and>
   generated_query (map f raw) = map f (generated_query raw)"
proof (intro conjI impI)
  show "generated_query raw = rev (drop 3 (rev (drop 6 raw)))"
    by (rule generated_query_rev)
  show "generated_query (map f raw) = map f (generated_query raw)"
    by (rule generated_query_map)
next
  assume 9: "9 \<le> length raw"
  then show "raw = take 6 raw @ generated_query raw @ drop (length raw - 3) raw"
    by (rule generated_query_split)
  show "length (take 6 raw) = 6" using 9 by simp
  show "length (drop (length raw - 3) raw) = 3" using 9 by simp
qed

theorem extraction_fixed_offsets_witness:
  "(9::nat) \<le> length ''SELECT 1; -- no fence'' \<and>
   ''SELECT 1; -- no fence'' = ''SELECT'' @ generated_query ''SELECT 1; -- no fence'' @ ''nce''"
proof -
  have l: "(9::nat) \<le> length ''SELECT 1; -- no fence''" by simp
  from extraction_fixed_offsets [of "''SELECT 1; -- no fence''" id]
  have "''SELECT 1; -- no fence'' = take 6 ''SELECT 1; -- no fence'' @
      generated_query ''SELECT 1; -- no fence'' @
      drop (length ''SELECT 1; -- no fence'' - 3) ''SELECT 1; -- no fence''"
    using l by blast
  then show ?thesis using l by simp
qed

text \<open>
  C5, as stated: the extracted statement never holds a backtick. It fails for a fenced
  completion that ends with a newline after the closing fence: the last three characters
  removed are two backticks and the newline, and one backtick stays.
\<close>

theorem extraction_keeps_backtick:
  "CHR 0x60 \<in> set (generated_query ''```sql\<newline>SELECT 1;\<newline>```\<newline>'')"
  by (simp add: generated_query_take_drop)

text \<open>
  C5, amended: for every completion that is exactly the opening fence \<open>```sql\<close>, a body
  without backticks and the closing fence, the extracted statement is the body and holds
  no backtick.
\<close>

theorem extraction_of_fenced_is_fence_free:
  "CHR 0x60 \<notin> set body \<Longrightarrow>
     generated_query (fenced body) = body \<and> CHR 0x60 \<notin> set (generated_query (fenced body))"
  by (simp add: generated_query_fenced)

theorem extraction_of_fenced_is_fence_free_witness:
  "CHR 0x60 \<notin> set ''\<newline>SELECT 1;\<newline>'' \<and>
   generated_query (fenced ''\<newline>SELECT 1;\<newline>'') = ''\<newline>SELECT 1;\<newline>'' \<and>
   CHR 0x60 \<notin> set (generated_query (fenced ''\<newline>SELECT 1;\<newline>''))"
proof -
  have h: "CHR 0x60 \<notin> set ''\<newline>SELECT 1;\<newline>''" by simp
  from extraction_of_fenced_is_fence_free [OF h] h show ?thesis by blast
qed

text \<open>
  C6, as stated: extracting a second time from the statement extracted from a correctly
  fenced completion changes nothing. It fails for the fenced statement \<open>SELECT 1;\<close>:
  the second extraction removes nine more characters.
\<close>

theorem extraction_not_idempotent:
  "generated_query (generated_query (fenced ''SELECT 1;'')) \<noteq> generated_query (fenced ''SELECT 1;'')"
  by (simp add: generated_query_take_drop fenced_def)

text \<open>
  C6, amended: the first extraction from a correctly fenced completion yields the body;
  extracting again leaves the extracted statement unchanged exactly when that statement is
  empty, which for any completion means a completion of at most nine characters.
\<close>

theorem extraction_idempotent_iff_empty:
  "generated_query (fenced body) = body \<and>
   (generated_query (generated_query (fenced body)) = generated_query (fenced body)
      \<longleftrightarrow> body = []) \<and>
   (generated_query (generated_query raw) = generated_query raw \<longleftrightarrow> length raw \<le> 9)"
proof -
  have iff: "generated_query (generated_query r) = generated_query r \<longleftrightarrow> length r \<le> 9" for r
  proof
    assume "generated_query (generated_query r) = generated_query r"
    then have "length (generated_query (generated_query r)) = length (generated_query r)"
      by simp
    then show "length r \<le> 9" by (simp add: length_generated_query)
  next
    assume "length r \<le> 9"
    then show "generated_query (generated_query r) = generated_query r"
      by (simp add: generated_query_take_drop)
  qed
  have "length (fenced body) \<le> 9 \<longleftrightarrow> body = []" by (simp add: fenced_def)
  with iff [of "fenced body"] iff [of raw] show ?thesis
    by (simp add: generated_query_fenced)
qed

theorem extraction_idempotent_iff_empty_witness:
  "generated_query (fenced []) = [] \<and>
   generated_query (generated_query (fenced [])) = generated_query (fenced []) \<and>
   generated_query (generated_query ''```sql```'') = generated_query ''```sql```''"
proof -
  have l: "length ''```sql```'' \<le> 9" by simp
  from extraction_idempotent_iff_empty [of "[]" "''```sql```''"] l show ?thesis by blast
qed

text \<open>
  C10. For every completion, also the empty one and those shorter than nine characters,
  the extraction returns a string: both adjusted bounds lie within the completion, every
  position that is read exists, the result has the completion's length less nine (zero
  when there are fewer), and a completion shorter than nine characters gives the empty
  string.
\<close>

theorem extraction_total_clamped:
  "adjust_index 6 (length raw) \<le> length raw \<and>
   adjust_index (- 3) (length raw) \<le> length raw \<and>
   (\<forall>i \<in> set [adjust_index 6 (length raw) ..< adjust_index (- 3) (length raw)]. i < length raw) \<and>
   generated_query raw =
     map (\<lambda>i. raw ! i) [adjust_index 6 (length raw) ..< adjust_index (- 3) (length raw)] \<and>
   length (generated_query raw) = length raw - 9 \<and>
   (length raw < 9 \<longrightarrow> generated_query raw = [])"
proof (intro conjI impI ballI)
  show "adjust_index 6 (length raw) \<le> length raw" by (rule adjust_index_le)
  show hi: "adjust_index (- 3) (length raw) \<le> length raw" by (rule adjust_index_le)
  show "i < length raw"
    if "i \<in> set [adjust_index 6 (length raw) ..< adjust_index (- 3) (length raw)]" for i
    using that hi by simp
  show "generated_query raw =
     map (\<lambda>i. raw ! i) [adjust_index 6 (length raw) ..< adjust_index (- 3) (length raw)]"
    by (simp add: generated_query_def py_slice_def Let_def)
  show "length (generated_query raw) = length raw - 9" by (rule length_generated_query)
  show "generated_query raw = []" if "length raw < 9"
    using that by (simp add: generated_query_take_drop)
qed

theorem extraction_total_clamped_witness:
  "length ''```sql'' < 9 \<and> generated_query ''```sql'' = [] \<and> generated_query [] = []"
proof -
  have l: "length ''```sql'' < 9" by simp
  have e: "length ([] :: string) < 9" by simp
  from extraction_total_clamped [of "''```sql''"] extraction_total_clamped [of "[]"] l e
  show ?thesis by blast
qed

section \<open>Properties of the result formatter\<close>

lemma foldl_append_acc: "foldl (\<lambda>text row. text @ f row) acc rs = acc @ concat (map f rs)"
  by (induction rs arbitrary: acc) simp_all

lemma format_response_concat:
  "format_response response =
     concat (map (\<lambda>row. join '' | '' (map py_str row) @ ''\<newline>\<newline>'') response)"
  unfolding format_response_def by (simp only: foldl_append_acc append_Nil)

lemma row_count_block:
  "CHR ''\<newline>'' \<notin> set w \<Longrightarrow>
     row_count (w @ ''\<newline>\<newline>'' @ rest) = Suc (row_count rest)"
proof (induction w)
  case Nil
  show ?case by simp
next
  case (Cons a w)
  then have a: "a \<noteq> CHR ''\<newline>''" and w: "CHR ''\<newline>'' \<notin> set w" by auto
  obtain b s where bs: "w @ ''\<newline>\<newline>'' @ rest = b # s"
    by (cases "w @ ''\<newline>\<newline>'' @ rest") auto
  have "row_count ((a # w) @ ''\<newline>\<newline>'' @ rest) = row_count (a # b # s)"
    using bs by simp
  also have "\<dots> = row_count (b # s)" using a by simp
  also have "\<dots> = Suc (row_count rest)" using Cons.IH [OF w] bs by simp
  finally show ?case .
qed

lemma join_no_newline:
  "CHR ''\<newline>'' \<notin> set sep \<Longrightarrow> \<forall>p \<in> set parts. CHR ''\<newline>'' \<notin> set p \<Longrightarrow>
     CHR ''\<newline>'' \<notin> set (join sep parts)"
  by (induction sep parts rule: join.induct) simp_all

lemma row_count_rows:
  "\<forall>row \<in> set response. \<forall>item \<in> set row. CHR ''\<newline>'' \<notin> set (py_str item) \<Longrightarrow>
     row_count (format_response response) = length response"
proof (induction response)
  case Nil
  show ?case by (simp add: format_response_concat)
next
  case (Cons row response)
  have "CHR ''\<newline>'' \<notin> set (join '' | '' (map py_str row))"
    by (rule join_no_newline) (use Cons.prems in auto)
  then have "row_count (join '' | '' (map py_str row) @ ''\<newline>\<newline>'' @ format_response response)
        = Suc (row_count (format_response response))"
    by (rule row_count_block)
  moreover have "row_count (format_response response) = length response"
    by (rule Cons.IH) (use Cons.prems in auto)
  ultimately show ?case by (simp add: format_response_concat)
qed

lemma format_response_fixture:
  "format_response [[PyStr ''Benue'', PyFloat (Finite False [5] 3)]] = ''Benue | 500.0\<newline>\<newline>''"
  by code_simp

text \<open>
  C8, as stated: every non-empty result set is formatted to a text whose row count is the
  number of input rows. It fails for a single row holding a string with a blank line in
  it: the text then has two row terminators for one row.
\<close>

theorem format_response_row_count_differs:
  "[[PyStr ''a\<newline>\<newline>b'']] \<noteq> [] \<and>
   format_response [[PyStr ''a\<newline>\<newline>b'']] = ''a\<newline>\<newline>b\<newline>\<newline>'' \<and>
   row_count (format_response [[PyStr ''a\<newline>\<newline>b'']]) \<noteq> length [[PyStr ''a\<newline>\<newline>b'']]"
  by (simp add: format_response_def)

text \<open>
  C8, amended: \<open>format_response\<close> is a function defined on every result set; the empty
  result set gives the empty string; every result set whose values have no newline
  character in their textual form gives a text whose row count is the number of input
  rows; and the single row \<open>("Benue", 500.0)\<close> gives \<open>Benue | 500.0\<close> followed by a
  blank line. In general the text is the concatenation, in order, of one block per row:
  the row's values joined by \<open>" | "\<close>, then two newline characters.
\<close>

theorem format_response_rows:
  "format_response [] = [] \<and>
   ((\<forall>row \<in> set response. \<forall>item \<in> set row. CHR ''\<newline>'' \<notin> set (py_str item)) \<longrightarrow>
      row_count (format_response response) = length response) \<and>
   format_response [[PyStr ''Benue'', PyFloat (Finite False [5] 3)]] = ''Benue | 500.0\<newline>\<newline>'' \<and>
   format_response response =
     concat (map (\<lambda>row. join '' | '' (map py_str row) @ ''\<newline>\<newline>'') response)"
proof (intro conjI impI)
  show "format_response [] = []" by (simp add: format_response_def)
  show "format_response [[PyStr ''Benue'', PyFloat (Finite False [5] 3)]] = ''Benue | 500.0\<newline>\<newline>''"
    by (rule format_response_fixture)
  show "format_response response =
     concat (map (\<lambda>row. join '' | '' (map py_str row) @ ''\<newline>\<newline>'') response)"
    by (rule format_response_concat)
next
  assume "\<forall>row \<in> set response. \<forall>item \<in> set row. CHR ''\<newline>'' \<notin> set (py_str item)"
  then show "row_count (format_response response) = length response"
    by (rule row_count_rows)
qed

theorem format_response_rows_witness:
  "row_count (format_response [[PyStr ''Benue'', PyInt 5], [PyNone]]) = 2 \<and>
   length [[PyStr ''Benue'', PyInt 5], [PyNone]] = 2"
proof -
  have h: "\<forall>row \<in> set [[PyStr ''Benue'', PyInt 5], [PyNone]].
      \<forall>item \<in> set row. CHR ''\<newline>'' \<notin> set (py_str item)"
    by code_simp
  from format_response_rows [of "[[PyStr ''Benue'', PyInt 5], [PyNone]]"] h
  have "row_count (format_response [[PyStr ''Benue'', PyInt 5], [PyNone]])
        = length [[PyStr ''Benue'', PyInt 5], [PyNone]]"
    by blast
  then show ?thesis by simp
qed

section \<open>Properties of the prompt compiler\<close>

lemma emit_Nil: "emit [] r = r"
  by (cases r) (simp_all add: emit_def)

lemma emit_emit: "emit a (emit b r) = emit (a @ b) r"
  by (cases r) (simp_all add: emit_def)

lemma emit_Inr: "emit a (Inr b) = Inr (a @ b)"
  by (simp add: emit_def)

lemma format_from_literal:
  "list_all no_brace lit \<Longrightarrow>
     format_from kwargs None (lit @ rest) = emit lit (format_from kwargs None rest)"
proof (induction lit)
  case Nil
  show ?case by (simp add: emit_Nil)
next
  case (Cons c lit)
  then have "no_brace c" and lit: "list_all no_brace lit"
    by simp_all
  then have c: "c \<noteq> CHR ''{''" "c \<noteq> CHR ''}''"
    by (simp_all add: no_brace_def)
  have "format_from kwargs None ((c # lit) @ rest) = emit [c] (format_from kwargs None (lit @ rest))"
    using c by simp
  also have "\<dots> = emit [c] (emit lit (format_from kwargs None rest))"
    by (simp only: Cons.IH [OF lit])
  finally show ?case by (simp add: emit_emit)
qed

lemma format_from_field:
  "CHR ''}'' \<notin> set name \<Longrightarrow>
     format_from kwargs (Some acc) (name @ CHR ''}'' # rest) =
       (case lookup_field kwargs (acc @ name) of
          Inl e \<Rightarrow> Inl e
        | Inr v \<Rightarrow> emit v (format_from kwargs None rest))"
  by (induction name arbitrary: acc) auto

lemma format_from_open:
  "name \<noteq> [] \<Longrightarrow> hd name \<noteq> CHR ''{'' \<Longrightarrow> CHR ''}'' \<notin> set name \<Longrightarrow>
     format_from kwargs None (CHR ''{'' # name @ CHR ''}'' # rest) =
       (case lookup_field kwargs name of
          Inl e \<Rightarrow> Inl e
        | Inr v \<Rightarrow> emit v (format_from kwargs None rest))"
proof -
  assume n: "name \<noteq> []" "hd name \<noteq> CHR ''{''" "CHR ''}'' \<notin> set name"
  then obtain d ds where name: "name = d # ds" by (cases name) auto
  with n have "format_from kwargs None (CHR ''{'' # name @ CHR ''}'' # rest)
      = format_from kwargs (Some []) (name @ CHR ''}'' # rest)"
    by simp
  with format_from_field [OF n(3), of kwargs "[]" rest] show ?thesis by simp
qed

lemma nb_head: "list_all no_brace template_head"
  unfolding template_head_def by (simp add: no_brace_def)

lemma nb_middle: "list_all no_brace template_middle"
  unfolding template_middle_def by (simp add: no_brace_def)

lemma nb_tail_lines: "list_all (list_all no_brace) template_tail_lines"
  unfolding template_tail_lines_def by (simp add: no_brace_def)

lemma list_all_concat: "list_all (list_all P) ls \<Longrightarrow> list_all P (concat ls)"
  by (induction ls) simp_all

lemma nb_tail: "list_all no_brace template_tail"
  unfolding template_tail_def by (rule list_all_concat) (rule nb_tail_lines)

lemma lookup_query:
  "lookup_field [(''query'', q), (''tables'', t)] ''query'' = Inr q"
  by (simp add: lookup_field_def)

lemma lookup_tables:
  "lookup_field [(''query'', q), (''tables'', t)] ''tables'' = Inr t"
  by (simp add: lookup_field_def)

lemma format_field_step:
  assumes "list_all no_brace lit" and "name \<noteq> []" and "hd name \<noteq> CHR ''{''"
    and "CHR ''}'' \<notin> set name" and "lookup_field kwargs name = Inr v"
  shows "format_from kwargs None (lit @ CHR ''{'' # name @ CHR ''}'' # rest) =
           emit (lit @ v) (format_from kwargs None rest)"
proof -
  have "format_from kwargs None (lit @ CHR ''{'' # name @ CHR ''}'' # rest) =
          emit lit (format_from kwargs None (CHR ''{'' # name @ CHR ''}'' # rest))"
    by (rule format_from_literal) (rule assms(1))
  also have "format_from kwargs None (CHR ''{'' # name @ CHR ''}'' # rest) =
          emit v (format_from kwargs None rest)"
    using format_from_open [OF assms(2,3,4), of kwargs rest] assms(5) by simp
  finally show ?thesis by (simp only: emit_emit)
qed

lemma format_literal_end:
  "list_all no_brace lit \<Longrightarrow> format_from kwargs None lit = Inr lit"
  using format_from_literal [of lit kwargs "[]"] by (simp add: emit_Inr)

lemma template_shape:
  "template = template_head @ CHR ''{'' # ''query'' @ CHR ''}'' #
     template_middle @ CHR ''{'' # ''tables'' @ CHR ''}'' # template_tail"
  by (simp add: template_def)

lemma sql_prompt_value:
  "sql_prompt query tables =
     Inr (template_head @ query @ template_middle @ str_list tables @ template_tail)"
proof -
  let ?kw = "[(''query'', query), (''tables'', str_list tables)]"
  have s1: "format_from ?kw None (template_head @ CHR ''{'' # ''query'' @ CHR ''}'' # R) =
      emit (template_head @ query) (format_from ?kw None R)" for R
    by (rule format_field_step) (simp_all add: nb_head lookup_query)
  have s2: "format_from ?kw None (template_middle @ CHR ''{'' # ''tables'' @ CHR ''}'' # R) =
      emit (template_middle @ str_list tables) (format_from ?kw None R)" for R
    by (rule format_field_step) (simp_all add: nb_middle lookup_tables)
  have s3: "format_from ?kw None template_tail = Inr template_tail"
    by (rule format_literal_end) (rule nb_tail)
  show ?thesis
    by (simp only: sql_prompt_def py_format_def template_shape s1 s2 s3 emit_Inr append_assoc)
qed

lemma sublist_inside: "sublist t m \<Longrightarrow> sublist t (a @ m @ b)"
proof -
  assume "sublist t m"
  then obtain ps ss where "m = ps @ t @ ss" by (auto simp: sublist_def)
  then have "a @ m @ b = (a @ ps) @ t @ (ss @ b)" by simp
  then show ?thesis unfolding sublist_def by blast
qed

lemma sublist_join: "t \<in> set xs \<Longrightarrow> sublist t (join sep xs)"
proof (induction sep xs rule: join.induct)
  case (1 sep)
  then show ?case by simp
next
  case (2 sep x)
  then show ?case by simp
next
  case (3 sep x y ys)
  show ?case
  proof (cases "t = x")
    case True
    have "sublist x ([] @ x @ (sep @ join sep (y # ys)))" by (rule sublist_appendI)
    with True show ?thesis by simp
  next
    case False
    with 3 have "sublist t (join sep (y # ys))" by simp
    then have "sublist t ((x @ sep) @ join sep (y # ys) @ [])" by (rule sublist_inside)
    then show ?thesis by simp
  qed
qed

lemma repr_char_plain:
  "printable c \<Longrightarrow> c \<noteq> CHR 0x5C \<Longrightarrow> c \<noteq> quote \<Longrightarrow> repr_char quote c = [c]"
  by (auto simp: repr_char_def printable_def)

lemma concat_map_singleton: "\<forall>c \<in> set s. f c = [c] \<Longrightarrow> concat (map f s) = s"
  by (induction s) simp_all

lemma py_repr_plain:
  assumes "plain_name t"
  shows "py_repr t = CHR 0x27 # t @ [CHR 0x27] \<or> py_repr t = CHR 0x22 # t @ [CHR 0x22]"
proof (cases "CHR 0x27 \<in> set t \<and> CHR 0x22 \<notin> set t")
  case True
  then have "\<forall>c \<in> set t. repr_char (CHR 0x22) c = [c]"
    using assms by (auto simp: plain_name_def intro!: repr_char_plain)
  then have "concat (map (repr_char (CHR 0x22)) t) = t" by (rule concat_map_singleton)
  with True show ?thesis by (simp add: py_repr_def Let_def)
next
  case False
  with assms have q: "CHR 0x27 \<notin> set t" by (auto simp: plain_name_def)
  then have "\<forall>c \<in> set t. repr_char (CHR 0x27) c = [c]"
    using assms by (auto simp: plain_name_def intro!: repr_char_plain)
  then have "concat (map (repr_char (CHR 0x27)) t) = t" by (rule concat_map_singleton)
  with q show ?thesis by (simp add: py_repr_def Let_def)
qed

lemma sublist_py_repr: "plain_name t \<Longrightarrow> sublist t (py_repr t)"
proof -
  assume "plain_name t"
  then consider "py_repr t = [CHR 0x27] @ t @ [CHR 0x27]" | "py_repr t = [CHR 0x22] @ t @ [CHR 0x22]"
    using py_repr_plain by fastforce
  then show ?thesis by cases (simp_all only: sublist_appendI)
qed

lemma sublist_str_list: "t \<in> set tables \<Longrightarrow> sublist (py_repr t) (str_list tables)"
proof -
  assume "t \<in> set tables"
  then have "sublist (py_repr t) (join '', '' (map py_repr tables))"
    by (intro sublist_join) simp
  then have "sublist (py_repr t) (''['' @ join '', '' (map py_repr tables) @ '']'')"
    by (rule sublist_inside)
  then show ?thesis by (simp only: str_list_def)
qed

lemma occurrences_append_left: "occurrences needle ys \<le> occurrences needle (xs @ ys)"
  by (induction xs) (simp_all add: le_SucI trans_le_add2)

lemma occurrences_append_right:
  "needle \<noteq> [] \<Longrightarrow> occurrences needle ys \<le> occurrences needle (ys @ zs)"
proof (induction ys)
  case Nil
  then show ?case by simp
next
  case (Cons y ys)
  have "prefix needle (y # ys) \<Longrightarrow> prefix needle (y # ys @ zs)"
    using prefix_prefix [of needle "y # ys" zs] by simp
  with Cons show ?case by auto
qed

lemma occurrences_inside:
  "needle \<noteq> [] \<Longrightarrow> occurrences needle ys \<le> occurrences needle (xs @ ys @ zs)"
  using occurrences_append_left [of needle "ys @ zs" xs] occurrences_append_right [of needle ys zs]
  by simp

lemma occurrences_scenario: "occurrences ''State'' (str_list [''State'', ''StateResource'', ''Resource'']) = 2"
  by code_simp

lemma plain_name_State: "plain_name ''State''" by code_simp

text \<open>
  C7, as stated: the compiled prompt contains each table name of the snapshot exactly
  once. It fails on the scenario of the specification itself: with the catalog
  \<open>State\<close>, \<open>StateResource\<close>, \<open>Resource\<close> the name \<open>State\<close> occurs twice in the
  rendered list alone (the fixed schema text names the tables again), so it does not occur
  exactly once in the prompt.
\<close>

theorem prompt_repeats_table_name:
  "''State'' \<in> set [''State'', ''StateResource'', ''Resource''] \<and>
   sql_prompt ''which state has the highest total quantity of yam''
       [''State'', ''StateResource'', ''Resource''] =
     Inr (template_head @ ''which state has the highest total quantity of yam'' @
          template_middle @ str_list [''State'', ''StateResource'', ''Resource''] @ template_tail) \<and>
   occurrences ''State''
     (template_head @ ''which state has the highest total quantity of yam'' @
      template_middle @ str_list [''State'', ''StateResource'', ''Resource''] @ template_tail) \<noteq> 1"
proof -
  let ?q = "''which state has the highest total quantity of yam''"
  let ?l = "str_list [''State'', ''StateResource'', ''Resource'']"
  have "occurrences ''State'' ?l \<le>
      occurrences ''State'' ((template_head @ ?q @ template_middle) @ ?l @ template_tail)"
    by (rule occurrences_inside) simp
  then have "2 \<le> occurrences ''State'' (template_head @ ?q @ template_middle @ ?l @ template_tail)"
    by (simp only: occurrences_scenario append_assoc)
  then have "occurrences ''State'' (template_head @ ?q @ template_middle @ ?l @ template_tail) \<noteq> 1"
    by linarith
  moreover have "''State'' \<in> set [''State'', ''StateResource'', ''Resource'']" by simp
  ultimately show ?thesis using sql_prompt_value by blast
qed

text \<open>
  C7, amended: for every snapshot and every question the prompt is compiled without
  error; it is the template with the question put verbatim in place of \<open>{query}\<close> and
  Python's rendering of the list of table names in place of \<open>{tables}\<close>. So it contains
  the question verbatim, the \<open>repr\<close> of every table name of the snapshot, and hence
  verbatim every table name that \<open>repr\<close> leaves unchanged (printable characters, no
  backslash, not both kinds of quote). How often a name occurs is not fixed.
\<close>

theorem prompt_contains_question_and_tables:
  "\<exists>p. sql_prompt query tables = Inr p \<and>
       p = template_head @ query @ template_middle @ str_list tables @ template_tail \<and>
       sublist query p \<and>
       (\<forall>t \<in> set tables. sublist (py_repr t) p \<and> (plain_name t \<longrightarrow> sublist t p))"
proof -
  let ?p = "template_head @ query @ template_middle @ str_list tables @ template_tail"
  have q: "sublist query ?p" by (rule sublist_inside) simp
  have t: "sublist (py_repr t) ?p \<and> (plain_name t \<longrightarrow> sublist t ?p)" if "t \<in> set tables" for t
  proof -
    have "sublist (py_repr t) (str_list tables)" using that by (rule sublist_str_list)
    then have "sublist (py_repr t) ((template_head @ query @ template_middle) @ str_list tables @ template_tail)"
      by (rule sublist_inside)
    then have r: "sublist (py_repr t) ?p" by simp
    have "sublist t ?p" if "plain_name t"
    proof -
      obtain ps ss where "?p = ps @ py_repr t @ ss"
        using r by (auto simp: sublist_def)
      moreover have "sublist t (ps @ py_repr t @ ss)"
        using sublist_py_repr [OF that] by (rule sublist_inside)
      ultimately show ?thesis by simp
    qed
    with r show ?thesis by blast
  qed
  from q t sql_prompt_value [of query tables] show ?thesis by blast
qed

theorem prompt_contains_question_and_tables_witness:
  "''Resource'' \<in> set [''State'', ''Resource''] \<and> plain_name ''Resource'' \<and>
   (\<exists>p. sql_prompt ''which state?'' [''State'', ''Resource''] = Inr p \<and>
        sublist ''which state?'' p \<and> sublist ''Resource'' p)"
proof -
  have m: "''Resource'' \<in> set [''State'', ''Resource'']" by simp
  have pl: "plain_name ''Resource''" by code_simp
  from prompt_contains_question_and_tables [of "''which state?''" "[''State'', ''Resource'']"]
  obtain p where p: "sql_prompt ''which state?'' [''State'', ''Resource''] = Inr p"
    "sublist ''which state?'' p"
    "\<forall>t \<in> set [''State'', ''Resource'']. sublist (py_repr t) p \<and> (plain_name t \<longrightarrow> sublist t p)"
    by blast
  from p(3) m pl have "sublist ''Resource'' p" by blast
  with m pl p(1,2) show ?thesis by blast
qed

section \<open>Properties of the execution loop\<close>

lemma nb_compare_head: "list_all no_brace compare_head"
  unfolding compare_head_def by (simp add: no_brace_def)

lemma nb_compare_middle1: "list_all no_brace compare_middle1"
  unfolding compare_middle1_def by (simp add: no_brace_def)

lemma nb_compare_middle2: "list_all no_brace compare_middle2"
  unfolding compare_middle2_def by (simp add: no_brace_def)

lemma nb_compare_tail: "list_all no_brace compare_tail"
  unfolding compare_tail_def by (simp add: no_brace_def)

lemma compare_template_shape:
  "compare_template = compare_head @ CHR ''{'' # ''query'' @ CHR ''}'' #
     compare_middle1 @ CHR ''{'' # ''sql_code'' @ CHR ''}'' #
     compare_middle2 @ CHR ''{'' # ''sql_result'' @ CHR ''}'' # compare_tail"
  by (simp add: compare_template_def)

lemma compare_prompt_value:
  "py_format compare_template
     [(''query'', query), (''sql_code'', generated), (''sql_result'', response)] =
   Inr (compare_head @ query @ compare_middle1 @ generated @ compare_middle2 @ response @
        compare_tail)"
proof -
  let ?kw = "[(''query'', query), (''sql_code'', generated), (''sql_result'', response)]"
  have s1: "format_from ?kw None (compare_head @ CHR ''{'' # ''query'' @ CHR ''}'' # R) =
      emit (compare_head @ query) (format_from ?kw None R)" for R
    by (rule format_field_step) (simp_all add: nb_compare_head lookup_field_def)
  have s2: "format_from ?kw None (compare_middle1 @ CHR ''{'' # ''sql_code'' @ CHR ''}'' # R) =
      emit (compare_middle1 @ generated) (format_from ?kw None R)" for R
    by (rule format_field_step) (simp_all add: nb_compare_middle1 lookup_field_def)
  have s3: "format_from ?kw None (compare_middle2 @ CHR ''{'' # ''sql_result'' @ CHR ''}'' # R) =
      emit (compare_middle2 @ response) (format_from ?kw None R)" for R
    by (rule format_field_step) (simp_all add: nb_compare_middle2 lookup_field_def)
  have s4: "format_from ?kw None compare_tail = Inr compare_tail"
    by (rule format_literal_end) (rule nb_compare_tail)
  show ?thesis
    by (simp only: py_format_def compare_template_shape s1 s2 s3 s4 emit_Inr append_assoc)
qed

lemma recovery_ok_append:
  "recovery_ok xs \<Longrightarrow> xs \<noteq> [] \<Longrightarrow> last xs = (Rollback, True) \<Longrightarrow> recovery_ok ys \<Longrightarrow>
     recovery_ok (xs @ ys)"
proof (induction xs rule: recovery_ok.induct)
  case 1
  then show ?case by simp
next
  case (2 c ok)
  then show ?case by (cases ys) auto
next
  case (3 c ok c' ok' es)
  then show ?case by simp
qed

lemma attempt_events:
  assumes "attempt sv query generated s = (out, s')"
  shows "\<exists>evs. snd s' = snd s @ evs \<and> evs \<noteq> [] \<and> recovery_ok evs \<and>
           (case out of
              Retry \<Rightarrow> last evs = (Rollback, True)
            | Raised e \<Rightarrow> uncaught_end e (last evs)
            | Done x \<Rightarrow> (\<exists>p. last evs = (CompareLlm p, True)))"
  using assms
  unfolding attempt_def try_block_def invoke_def Let_def compare_prompt_value uncaught_end_def
  by (auto split: prod.splits sum.splits if_splits)


lemma iterate_events:
  "iterate_loop sv query generated n s = (out, s') \<Longrightarrow>
     \<exists>evs. snd s' = snd s @ evs \<and> recovery_ok evs \<and>
       (case out of
          Retry \<Rightarrow> True
        | Raised e \<Rightarrow> evs \<noteq> [] \<and> uncaught_end e (last evs)
        | Done x \<Rightarrow> evs \<noteq> [] \<and> (\<exists>p. last evs = (CompareLlm p, True)))"
proof (induction n arbitrary: s)
  case 0
  then show ?case by auto
next
  case (Suc n)
  obtain o1 s1 where a: "attempt sv query generated s = (o1, s1)"
    by (cases "attempt sv query generated s")
  from attempt_events [OF a] obtain evs1 where e1: "snd s1 = snd s @ evs1" "evs1 \<noteq> []"
    "recovery_ok evs1"
    "case o1 of Retry \<Rightarrow> last evs1 = (Rollback, True)
       | Raised e \<Rightarrow> uncaught_end e (last evs1)
       | Done x \<Rightarrow> (\<exists>p. last evs1 = (CompareLlm p, True))"
    by blast
  show ?case
  proof (cases o1)
    case Retry
    with a Suc.prems have "iterate_loop sv query generated n s1 = (out, s')" by simp
    from Suc.IH [OF this] obtain evs2 where e2: "snd s' = snd s1 @ evs2" "recovery_ok evs2"
      "case out of Retry \<Rightarrow> True
         | Raised e \<Rightarrow> evs2 \<noteq> [] \<and> uncaught_end e (last evs2)
         | Done x \<Rightarrow> evs2 \<noteq> [] \<and> (\<exists>p. last evs2 = (CompareLlm p, True))"
      by blast
    from e1 Retry have "last evs1 = (Rollback, True)" by simp
    with e1 e2 have "recovery_ok (evs1 @ evs2)" by (intro recovery_ok_append)
    moreover have "snd s' = snd s @ evs1 @ evs2" using e1 e2 by simp
    moreover have "case out of Retry \<Rightarrow> True
         | Raised e \<Rightarrow> evs1 @ evs2 \<noteq> [] \<and> uncaught_end e (last (evs1 @ evs2))
         | Done x \<Rightarrow> evs1 @ evs2 \<noteq> [] \<and> (\<exists>p. last (evs1 @ evs2) = (CompareLlm p, True))"
      using e2(3) by (cases out) auto
    ultimately show ?thesis by blast
  next
    case (Done x)
    with a Suc.prems have "out = Done x" "s' = s1" by simp_all
    with e1 Done show ?thesis by auto
  next
    case (Raised e)
    with a Suc.prems have "out = Raised e" "s' = s1" by simp_all
    with e1 Raised show ?thesis by auto
  qed
qed

lemma loop_returns_iterate:
  assumes "execution_loop sv0 query0 generated0 s0 = Some y0"
  shows "\<exists>n. (case fst y0 of
            Inr x \<Rightarrow> iterate_loop sv0 query0 generated0 n s0 = (Done x, snd y0)
          | Inl e \<Rightarrow> iterate_loop sv0 query0 generated0 n s0 = (Raised e, snd y0))"
proof (rule execution_loop.raw_induct
    [where P = "\<lambda>sv query generated s y. \<exists>n. (case fst y of
            Inr x \<Rightarrow> iterate_loop sv query generated n s = (Done x, snd y)
          | Inl e \<Rightarrow> iterate_loop sv query generated n s = (Raised e, snd y))", OF _ assms])
  fix loop :: "'a services \<Rightarrow> string \<Rightarrow> string \<Rightarrow> 'a state \<Rightarrow> ((error + string) \<times> 'a state) option"
  fix sv query generated s y
  assume 1: "\<And>sv query generated s y. loop sv query generated s = Some y \<Longrightarrow>
        \<exists>n. (case fst y of
            Inr x \<Rightarrow> iterate_loop sv query generated n s = (Done x, snd y)
          | Inl e \<Rightarrow> iterate_loop sv query generated n s = (Raised e, snd y))"
    "(case attempt sv query generated s of
        (Done explanation, s1) \<Rightarrow> Some (Inr explanation, s1)
      | (Retry, s1) \<Rightarrow> loop sv query generated s1
      | (Raised e, s1) \<Rightarrow> Some (Inl e, s1)) = Some y"
  obtain o1 s1 where a: "attempt sv query generated s = (o1, s1)"
    by (cases "attempt sv query generated s")
  show "\<exists>n. (case fst y of
            Inr x \<Rightarrow> iterate_loop sv query generated n s = (Done x, snd y)
          | Inl e \<Rightarrow> iterate_loop sv query generated n s = (Raised e, snd y))"
  proof (cases o1)
    case (Done x)
    with a 1(2) have "y = (Inr x, s1)" by simp
    with a Done have "case fst y of
            Inr x \<Rightarrow> iterate_loop sv query generated (Suc 0) s = (Done x, snd y)
          | Inl e \<Rightarrow> iterate_loop sv query generated (Suc 0) s = (Raised e, snd y)"
      by simp
    then show ?thesis by (rule exI)
  next
    case Retry
    with a 1(2) have "loop sv query generated s1 = Some y" by simp
    from 1(1) [OF this] obtain n where
      n: "case fst y of
            Inr x \<Rightarrow> iterate_loop sv query generated n s1 = (Done x, snd y)
          | Inl e \<Rightarrow> iterate_loop sv query generated n s1 = (Raised e, snd y)"
      by blast
    have "case fst y of
            Inr x \<Rightarrow> iterate_loop sv query generated (Suc n) s = (Done x, snd y)
          | Inl e \<Rightarrow> iterate_loop sv query generated (Suc n) s = (Raised e, snd y)"
      using n a Retry by (cases "fst y") simp_all
    then show ?thesis by (rule exI)
  next
    case (Raised e)
    with a 1(2) have "y = (Inl e, s1)" by simp
    with a Raised have "case fst y of
            Inr x \<Rightarrow> iterate_loop sv query generated (Suc 0) s = (Done x, snd y)
          | Inl e \<Rightarrow> iterate_loop sv query generated (Suc 0) s = (Raised e, snd y)"
      by simp
    then show ?thesis by (rule exI)
  qed
qed

lemma iterate_done_returns:
  "iterate_loop sv query generated n s = (Done x, s') \<Longrightarrow>
     execution_loop sv query generated s = Some (Inr x, s')"
proof (induction n arbitrary: s)
  case 0
  then show ?case by simp
next
  case (Suc n)
  obtain o1 s1 where a: "attempt sv query generated s = (o1, s1)"
    by (cases "attempt sv query generated s")
  show ?case
  proof (cases o1)
    case Retry
    with a Suc.prems have "iterate_loop sv query generated n s1 = (Done x, s')" by simp
    then have "execution_loop sv query generated s1 = Some (Inr x, s')" by (rule Suc.IH)
    then show ?thesis using a Retry by (subst execution_loop.simps) simp
  next
    case (Done x')
    with a Suc.prems show ?thesis by (subst execution_loop.simps) simp
  next
    case (Raised e)
    with a Suc.prems show ?thesis by simp
  qed
qed

lemma iterate_raised_returns:
  "iterate_loop sv query generated n s = (Raised e, s') \<Longrightarrow>
     execution_loop sv query generated s = Some (Inl e, s')"
proof (induction n arbitrary: s)
  case 0
  then show ?case by simp
next
  case (Suc n)
  obtain o1 s1 where a: "attempt sv query generated s = (o1, s1)"
    by (cases "attempt sv query generated s")
  show ?case
  proof (cases o1)
    case Retry
    with a Suc.prems have "iterate_loop sv query generated n s1 = (Raised e, s')" by simp
    then have "execution_loop sv query generated s1 = Some (Inl e, s')" by (rule Suc.IH)
    then show ?thesis using a Retry by (subst execution_loop.simps) simp
  next
    case (Done x')
    with a Suc.prems show ?thesis by simp
  next
    case (Raised e')
    with a Suc.prems show ?thesis by (subst execution_loop.simps) simp
  qed
qed

lemma iterate_always_retry_never_returns:
  "\<forall>n. fst (iterate_loop sv query generated n s) = Retry \<Longrightarrow>
     execution_loop sv query generated s = None"
proof (rule ccontr)
  assume r: "\<forall>n. fst (iterate_loop sv query generated n s) = Retry"
  assume "execution_loop sv query generated s \<noteq> None"
  then obtain y where "execution_loop sv query generated s = Some y" by blast
  from loop_returns_iterate [OF this] obtain n where
    "case fst y of
       Inr x \<Rightarrow> iterate_loop sv query generated n s = (Done x, snd y)
     | Inl e \<Rightarrow> iterate_loop sv query generated n s = (Raised e, snd y)"
    by blast
  then have "fst (iterate_loop sv query generated n s) \<noteq> Retry"
    by (cases "fst y") simp_all
  with r show False by blast
qed

lemma attempt_failing_execute:
  assumes "\<exists>e. fst (execute sv generated (fst s)) = Inl e \<and> is_exception e"
    and "\<not> isl (fst (rollback sv (snd (execute sv generated (fst s)))))"
  shows "attempt sv query generated s =
     (Retry, (snd (rollback sv (snd (execute sv generated (fst s)))),
              snd s @ [(Execute generated, False), (Rollback, True)]))"
  using assms
  unfolding attempt_def try_block_def invoke_def
  by (auto split: prod.splits sum.splits)

lemma iterate_failing_execute:
  assumes ex: "\<forall>w. \<exists>e. fst (execute sv generated w) = Inl e \<and> is_exception e"
    and rb: "\<forall>w. \<not> isl (fst (rollback sv w))"
  shows "fst (iterate_loop sv query generated n s) = Retry \<and>
     snd (snd (iterate_loop sv query generated n s)) =
       snd s @ concat (replicate n [(Execute generated, False), (Rollback, True)])"
proof (induction n arbitrary: s)
  case 0
  show ?case by simp
next
  case (Suc n)
  let ?s1 = "(snd (rollback sv (snd (execute sv generated (fst s)))),
              snd s @ [(Execute generated, False), (Rollback, True)])"
  have a: "attempt sv query generated s = (Retry, ?s1)"
    by (rule attempt_failing_execute) (use ex rb in auto)
  have "iterate_loop sv query generated (Suc n) s = iterate_loop sv query generated n ?s1"
    using a by simp
  with Suc.IH [of ?s1] show ?case by simp
qed

lemma closed_connection_run:
  "execution_loop closed_connection query generated ((), tr) =
     Some (Inl (ServiceError ''connection already closed''),
           ((), tr @ [(Execute generated, False), (Rollback, False)]))"
proof -
  have "attempt closed_connection query generated ((), tr) =
      (Raised (ServiceError ''connection already closed''),
       ((), tr @ [(Execute generated, False), (Rollback, False)]))"
    by (simp add: attempt_def try_block_def invoke_def closed_connection_def)
  then show ?thesis by (subst execution_loop.simps) simp
qed

text \<open>
  C1, as stated: when the statement raises on every attempt the loop never terminates, and
  the loop is left only by a successful attempt. It fails on a closed connection: the
  statement raises on every attempt (the world has one state, in which it raises), the
  rollback of the handler raises too, nothing catches that exception, and the loop is left
  with it after one attempt.
\<close>

theorem loop_ends_when_rollback_raises:
  "isl (fst (execute closed_connection ''SELECT 1;'' ())) \<and>
   execution_loop closed_connection ''which state?'' ''SELECT 1;'' ((), []) =
     Some (Inl (ServiceError ''connection already closed''),
           ((), [(Execute ''SELECT 1;'', False), (Rollback, False)]))"
  using closed_connection_run [of "''which state?''" "''SELECT 1;''" "[]"]
  by (simp add: closed_connection_def)

lemma interrupted_run:
  "execution_loop interrupted_explanation query generated ((), tr) =
     Some (Inl (Interrupt ''KeyboardInterrupt''),
           ((), tr @ [(Execute generated, True), (Fetchall, True), (Commit, True),
                      (CompareLlm (compare_head @ query @ compare_middle1 @ generated @
                         compare_middle2 @ format_response [] @ compare_tail), False)]))"
proof -
  have "attempt interrupted_explanation query generated ((), tr) =
      (Raised (Interrupt ''KeyboardInterrupt''),
       ((), tr @ [(Execute generated, True), (Fetchall, True), (Commit, True),
                  (CompareLlm (compare_head @ query @ compare_middle1 @ generated @
                     compare_middle2 @ format_response [] @ compare_tail), False)]))"
    by (simp add: attempt_def try_block_def invoke_def interrupted_explanation_def
        compare_prompt_value)
  then show ?thesis by (subst execution_loop.simps) simp
qed

text \<open>
  C1, amended: a run that leaves the loop ends either with the explanation request that
  returned (a successful attempt) or with an exception that nothing catches: one raised by
  \<open>connection.rollback()\<close> itself, or one outside the class \<open>Exception\<close> raised by a
  call of the \<open>try\<close> body, which the handler lets through with no rollback; there is no
  other exit. For every statement whose execution raises an \<open>Exception\<close> on every
  attempt, provided every rollback returns, the loop never terminates: after any number
  \<open>n\<close> of iterations it is still running and has made exactly \<open>n\<close> times the calls
  "execute the same statement" (raised) and "rollback" (returned), with nothing in between
  and no limit on \<open>n\<close>.
\<close>

theorem loop_never_ends_on_failing_statement:
  "(execution_loop sv query generated s = Some (r, s') \<longrightarrow>
      (case r of
         Inr explanation \<Rightarrow> \<exists>p. last (snd s') = (CompareLlm p, True)
       | Inl e \<Rightarrow>
           last (snd s') = (Rollback, False) \<or>
           (\<not> is_exception e \<and> snd (last (snd s')) = False \<and> fst (last (snd s')) \<noteq> Rollback))) \<and>
   ((\<forall>w. \<exists>e. fst (execute sv generated w) = Inl e \<and> is_exception e) \<and>
    (\<forall>w. \<not> isl (fst (rollback sv w))) \<longrightarrow>
      execution_loop sv query generated s = None \<and>
      (\<forall>n. fst (iterate_loop sv query generated n s) = Retry \<and>
           snd (snd (iterate_loop sv query generated n s)) =
             snd s @ concat (replicate n [(Execute generated, False), (Rollback, True)])))"
proof (intro conjI impI)
  assume l: "execution_loop sv query generated s = Some (r, s')"
  show "case r of
         Inr explanation \<Rightarrow> \<exists>p. last (snd s') = (CompareLlm p, True)
       | Inl e \<Rightarrow>
           last (snd s') = (Rollback, False) \<or>
           (\<not> is_exception e \<and> snd (last (snd s')) = False \<and> fst (last (snd s')) \<noteq> Rollback)"
  proof (cases r)
    case (Inl e)
    with l have "execution_loop sv query generated s = Some (Inl e, s')" by simp
    from loop_returns_iterate [OF this] obtain n where
      "iterate_loop sv query generated n s = (Raised e, s')" by auto
    from iterate_events [OF this] obtain evs where
      "snd s' = snd s @ evs" "evs \<noteq> []" "uncaught_end e (last evs)"
      by auto
    then have "uncaught_end e (last (snd s'))" by simp
    with Inl show ?thesis by (simp add: uncaught_end_def)
  next
    case (Inr x)
    with l have "execution_loop sv query generated s = Some (Inr x, s')" by simp
    from loop_returns_iterate [OF this] obtain n where
      "iterate_loop sv query generated n s = (Done x, s')" by auto
    from iterate_events [OF this] Inr show ?thesis by auto
  qed
next
  assume h: "(\<forall>w. \<exists>e. fst (execute sv generated w) = Inl e \<and> is_exception e) \<and>
    (\<forall>w. \<not> isl (fst (rollback sv w)))"
  then have it: "fst (iterate_loop sv query generated n s) = Retry \<and>
     snd (snd (iterate_loop sv query generated n s)) =
       snd s @ concat (replicate n [(Execute generated, False), (Rollback, True)])" for n
    by (intro iterate_failing_execute) auto
  then show "\<forall>n. fst (iterate_loop sv query generated n s) = Retry \<and>
           snd (snd (iterate_loop sv query generated n s)) =
             snd s @ concat (replicate n [(Execute generated, False), (Rollback, True)])"
    by blast
  from it show "execution_loop sv query generated s = None"
    by (intro iterate_always_retry_never_returns) blast
qed

theorem loop_never_ends_on_failing_statement_witness:
  "execution_loop failing_statement ''which state?'' ''SELECT nothing;'' ((), []) = None \<and>
   iterate_loop failing_statement ''which state?'' ''SELECT nothing;'' 2 ((), []) =
     (Retry, ((), [(Execute ''SELECT nothing;'', False), (Rollback, True),
                   (Execute ''SELECT nothing;'', False), (Rollback, True)])) \<and>
   execution_loop closed_connection ''which state?'' ''SELECT 1;'' ((), []) =
     Some (Inl (ServiceError ''connection already closed''),
           ((), [(Execute ''SELECT 1;'', False), (Rollback, False)])) \<and>
   last (snd ((), [(Execute ''SELECT 1;'', False), (Rollback, False)])) = (Rollback, False) \<and>
   execution_loop interrupted_explanation ''which state?'' ''SELECT 1;'' ((), []) =
     Some (Inl (Interrupt ''KeyboardInterrupt''),
           ((), [(Execute ''SELECT 1;'', True), (Fetchall, True), (Commit, True),
                 (CompareLlm (compare_head @ ''which state?'' @ compare_middle1 @ ''SELECT 1;'' @
                    compare_middle2 @ format_response [] @ compare_tail), False)])) \<and>
   fst (last (snd ((), [(Execute ''SELECT 1;'', True), (Fetchall, True), (Commit, True),
                 (CompareLlm (compare_head @ ''which state?'' @ compare_middle1 @ ''SELECT 1;'' @
                    compare_middle2 @ format_response [] @ compare_tail), False)]))) \<noteq> Rollback"
proof -
  have h: "(\<forall>w. \<exists>e. fst (execute failing_statement ''SELECT nothing;'' w) = Inl e \<and> is_exception e) \<and>
      (\<forall>w. \<not> isl (fst (rollback failing_statement w)))"
    by (simp add: failing_statement_def)
  from loop_never_ends_on_failing_statement
    [of failing_statement "''which state?''" "''SELECT nothing;''" "((), [])"] h
  have n: "execution_loop failing_statement ''which state?'' ''SELECT nothing;'' ((), []) = None"
    and i: "fst (iterate_loop failing_statement ''which state?'' ''SELECT nothing;'' 2 ((), [])) = Retry \<and>
      snd (snd (iterate_loop failing_statement ''which state?'' ''SELECT nothing;'' 2 ((), []))) =
        snd ((), []) @ concat (replicate 2 [(Execute ''SELECT nothing;'', False), (Rollback, True)])"
    by blast+
  have "concat (replicate 2 [(Execute ''SELECT nothing;'', False), (Rollback, True)]) =
      [(Execute ''SELECT nothing;'', False), (Rollback, True),
       (Execute ''SELECT nothing;'', False), (Rollback, True)]"
    by (simp add: numeral_2_eq_2)
  with i have it: "iterate_loop failing_statement ''which state?'' ''SELECT nothing;'' 2 ((), []) =
     (Retry, ((), [(Execute ''SELECT nothing;'', False), (Rollback, True),
                   (Execute ''SELECT nothing;'', False), (Rollback, True)]))"
    by (cases "iterate_loop failing_statement ''which state?'' ''SELECT nothing;'' 2 ((), [])") auto
  have c: "execution_loop closed_connection ''which state?'' ''SELECT 1;'' ((), []) =
     Some (Inl (ServiceError ''connection already closed''),
           ((), [(Execute ''SELECT 1;'', False), (Rollback, False)]))"
    using closed_connection_run [of "''which state?''" "''SELECT 1;''" "[]"] by simp
  from loop_never_ends_on_failing_statement
    [of closed_connection "''which state?''" "''SELECT 1;''" "((), [])"
      "Inl (ServiceError ''connection already closed'')"
      "((), [(Execute ''SELECT 1;'', False), (Rollback, False)])"] c
  have cl: "last (snd ((), [(Execute ''SELECT 1;'', False), (Rollback, False)])) = (Rollback, False)"
    by simp
  let ?tr = "[(Execute ''SELECT 1;'', True), (Fetchall, True), (Commit, True),
                 (CompareLlm (compare_head @ ''which state?'' @ compare_middle1 @ ''SELECT 1;'' @
                    compare_middle2 @ format_response [] @ compare_tail), False)]"
  have k: "execution_loop interrupted_explanation ''which state?'' ''SELECT 1;'' ((), []) =
     Some (Inl (Interrupt ''KeyboardInterrupt''), ((), ?tr))"
    using interrupted_run [of "''which state?''" "''SELECT 1;''" "[]"] by simp
  from loop_never_ends_on_failing_statement
    [of interrupted_explanation "''which state?''" "''SELECT 1;''" "((), [])"
      "Inl (Interrupt ''KeyboardInterrupt'')" "((), ?tr)"] k
  have "last (snd ((), ?tr)) = (Rollback, False) \<or>
      (\<not> is_exception (Interrupt ''KeyboardInterrupt'') \<and> snd (last (snd ((), ?tr))) = False \<and>
       fst (last (snd ((), ?tr))) \<noteq> Rollback)"
    by simp
  then have kl: "fst (last (snd ((), ?tr))) \<noteq> Rollback"
    by auto
  from n it c cl k kl show ?thesis by blast
qed

lemma flaky_attempt:
  "attempt (flaky_explanation n completion rows explanation) query generated (w, tr) =
     (if w < n then
        (Retry, (Suc w, tr @ failed_round generated
           (compare_head @ query @ compare_middle1 @ generated @ compare_middle2 @
            format_response rows @ compare_tail)))
      else
        (Done explanation, (Suc w, tr @ successful_round generated
           (compare_head @ query @ compare_middle1 @ generated @ compare_middle2 @
            format_response rows @ compare_tail))))"
  by (simp add: attempt_def try_block_def invoke_def flaky_explanation_def compare_prompt_value
      failed_round_def successful_round_def)

lemma flaky_iterate:
  "k \<le> n \<Longrightarrow>
   iterate_loop (flaky_explanation n completion rows explanation) query generated (Suc k)
       (n - k, tr) =
     (Done explanation,
      (Suc n, tr @ concat (replicate k (failed_round generated
           (compare_head @ query @ compare_middle1 @ generated @ compare_middle2 @
            format_response rows @ compare_tail))) @
        successful_round generated
           (compare_head @ query @ compare_middle1 @ generated @ compare_middle2 @
            format_response rows @ compare_tail)))"
proof (induction k arbitrary: tr)
  case 0
  show ?case by (simp add: flaky_attempt)
next
  case (Suc k)
  let ?cp = "compare_head @ query @ compare_middle1 @ generated @ compare_middle2 @
            format_response rows @ compare_tail"
  let ?sv = "flaky_explanation n completion rows explanation"
  from Suc.prems have lt: "n - Suc k < n" and w: "Suc (n - Suc k) = n - k" and k: "k \<le> n"
    by simp_all
  have "attempt ?sv query generated (n - Suc k, tr) =
      (Retry, (n - k, tr @ failed_round generated ?cp))"
    using lt w by (simp add: flaky_attempt)
  then have "iterate_loop ?sv query generated (Suc (Suc k)) (n - Suc k, tr) =
      iterate_loop ?sv query generated (Suc k) (n - k, tr @ failed_round generated ?cp)"
    by simp
  also have "\<dots> = (Done explanation,
      (Suc n, (tr @ failed_round generated ?cp) @ concat (replicate k (failed_round generated ?cp)) @
        successful_round generated ?cp))"
    by (rule Suc.IH [OF k])
  finally show ?case by simp
qed

lemma flaky_get_response:
  "get_response (flaky_explanation n completion rows explanation) tables query (0, []) =
     Some (Inr explanation,
       (Suc n,
        [(SqlLlm (template_head @ query @ template_middle @ str_list tables @ template_tail), True),
         (Cursor, True)] @
        concat (replicate n (failed_round (generated_query completion)
           (compare_head @ query @ compare_middle1 @ generated_query completion @
            compare_middle2 @ format_response rows @ compare_tail))) @
        successful_round (generated_query completion)
           (compare_head @ query @ compare_middle1 @ generated_query completion @
            compare_middle2 @ format_response rows @ compare_tail)))"
proof -
  let ?sv = "flaky_explanation n completion rows explanation"
  let ?p = "template_head @ query @ template_middle @ str_list tables @ template_tail"
  let ?g = "generated_query completion"
  have "iterate_loop ?sv query ?g (Suc n) (n - n, [(SqlLlm ?p, True), (Cursor, True)]) =
      (Done explanation,
       (Suc n, [(SqlLlm ?p, True), (Cursor, True)] @
         concat (replicate n (failed_round ?g
           (compare_head @ query @ compare_middle1 @ ?g @ compare_middle2 @
            format_response rows @ compare_tail))) @
         successful_round ?g
           (compare_head @ query @ compare_middle1 @ ?g @ compare_middle2 @
            format_response rows @ compare_tail)))"
    by (rule flaky_iterate) simp
  then have "execution_loop ?sv query ?g (0, [(SqlLlm ?p, True), (Cursor, True)]) =
      Some (Inr explanation,
       (Suc n, [(SqlLlm ?p, True), (Cursor, True)] @
         concat (replicate n (failed_round ?g
           (compare_head @ query @ compare_middle1 @ ?g @ compare_middle2 @
            format_response rows @ compare_tail))) @
         successful_round ?g
           (compare_head @ query @ compare_middle1 @ ?g @ compare_middle2 @
            format_response rows @ compare_tail)))"
    by (intro iterate_done_returns [of _ _ _ "Suc n"]) simp
  moreover have "get_response ?sv tables query (0, []) =
      execution_loop ?sv query ?g (0, [(SqlLlm ?p, True), (Cursor, True)])"
    by (simp add: get_response_def sql_prompt_value invoke_def flaky_explanation_def)
  ultimately show ?thesis by simp
qed





text \<open>
  C2, on the code: when the explanation request raises once, \<open>get_response\<close> does not
  hand the failure to its caller. The exception is caught by the handler of the loop,
  which rolls back and runs the whole body again: the statement is executed, fetched and
  committed a second time and the explanation is requested a second time.
\<close>

theorem explanation_failure_is_retried:
  "map_option (\<lambda>y. (fst y, map (\<lambda>e. (call_name (fst e), snd e)) (snd (snd y))))
     (get_response (flaky_explanation 1 (fenced ''SELECT 1;'') [[PyInt 1]] ''one'') [] ''which state?''
        (0, [])) =
   Some (Inr ''one'',
     [(''sql_llm'', True), (''cursor'', True),
      (''execute'', True), (''fetchall'', True), (''commit'', True), (''compare_llm'', False),
      (''rollback'', True),
      (''execute'', True), (''fetchall'', True), (''commit'', True), (''compare_llm'', True)])"
  by (simp add: flaky_get_response failed_round_def successful_round_def)





end
